theory Spec2Isabelle
  imports Complex_Main "HOL-Library.Multiset"
begin

section \<open>Data model of the options backtest framework\<close>

text \<open>
  Python floats are idealised as \<^typ>\<open>real\<close>; a column that the code tests with
  \<^verbatim>\<open>pd.isna\<close> is an option (\<open>None\<close> is NaN), the other numeric columns hold
  numbers. Dates are day numbers, timestamps are seconds, so that the close time of day
  \<open>d\<close>, 15:00:00 of that date, is \<open>d * 86400 + 54000\<close>. Where the code divides by a
  number that can be 0 the float result is infinite or NaN, which a real cannot be; the
  properties below that depend on such a quotient assume it away.
\<close>

record row =
  Date :: int
  Time :: string
  DateTime :: int
  UNDERLYING :: "real option"
  Expiry :: int
  DTE :: int
  Strike :: real
  Option_Type :: string
  Close :: real

record position =
  pos_entry_date :: int
  pos_entry_time :: string
  pos_expiry :: int
  pos_strike :: real
  pos_option_type :: string
  pos_entry_price :: real
  pos_investment :: real
  pos_underlying_at_entry :: real

record trade =
  strategy :: string
  entry_date :: int
  exit_date :: int
  entry_time :: string
  exit_time :: string
  option_type :: string
  strike :: real
  expiry :: int
  entry_price :: real
  exit_price :: real
  profit :: real
  profit_pct :: real
  capital_after :: real
  underlying_at_entry :: real

text \<open>What \<^verbatim>\<open>sort_values('entry_date')\<close> does to a ledger is not text of this
  repository, and pandas promises of it only this much: the result has the same rows, in
  ascending entry date. Its default sort is not stable, so the order among rows of one
  entry date is whatever the sort leaves. A \<open>sorter\<close> is any function with the promised
  behaviour; the stable sort is one of them.\<close>

typedef sorter =
  "{sv :: trade list \<Rightarrow> trade list.
      \<forall>ts. mset (sv ts) = mset ts \<and> sorted (map entry_date (sv ts))}"
proof
  show "sort_key entry_date \<in>
          {sv. \<forall>ts. mset (sv ts) = mset ts \<and> sorted (map entry_date (sv ts))}"
    by simp
qed

setup_lifting type_definition_sorter

lift_definition stable_sorter :: sorter is "sort_key entry_date"
  by simp

text \<open>The framework object, with its two fields of \<^verbatim>\<open>__init__\<close>, and with the two
  operations of the Python runtime that its methods call: \<^verbatim>\<open>int\<close> on a string
  (\<open>None\<close> when it raises) and the sort of pandas.\<close>

record framework =
  nifty_data :: "row list"
  initial_capital :: real
  int_of_str :: "string \<Rightarrow> int option"
  sort_values :: sorter

record state =
  capital :: real
  trades :: "trade list"
  trades_today :: "int \<rightharpoonup> nat"
  live_positions :: "position list"
  entry_checks :: nat

type_synonym entry_logic = "int \<Rightarrow> real \<Rightarrow> row list \<Rightarrow> string option \<times> bool"

section \<open>Lookups on the market data table\<close>

text \<open>\<^verbatim>\<open>get_nearest_expiry\<close>: \<^verbatim>\<open>groupby('Expiry')['DTE'].first()\<close> has one entry per
  expiry, in ascending expiry order, holding the DTE of the first row of that expiry;
  \<^verbatim>\<open>idxmin\<close> takes the first expiry with the least DTE.\<close>

fun idxmin :: "(int \<times> int) list \<Rightarrow> (int \<times> int) option" where
  "idxmin [] = None"
| "idxmin (p # ps) =
     (case idxmin ps of
        None \<Rightarrow> Some p
      | Some q \<Rightarrow> if snd p \<le> snd q then Some p else Some q)"

definition group_first_DTE :: "row list \<Rightarrow> (int \<times> int) list" where
  "group_first_DTE date_data =
     concat (map (\<lambda>e. case filter (\<lambda>r. Expiry r = e) date_data of
                          [] \<Rightarrow> []
                        | r # _ \<Rightarrow> [(e, DTE r)])
                 (sort (remdups (map Expiry date_data))))"

definition get_nearest_expiry :: "framework \<Rightarrow> int \<Rightarrow> int option" where
  "get_nearest_expiry fw current_date =
     (let date_data = filter (\<lambda>r. Date r = current_date) (nifty_data fw) in
      if length date_data = 0 then None
      else let unique_expiries = group_first_DTE date_data in
        if length unique_expiries = 0 then None
        else map_option fst (idxmin unique_expiries))"

text \<open>Python's \<^verbatim>\<open>round\<close> rounds a half to the even neighbour.\<close>

definition py_round :: "real \<Rightarrow> int" where
  "py_round x =
     (let f = \<lfloor>x\<rfloor>; d = x - of_int f in
      if d < 1 / 2 then f
      else if 1 / 2 < d then f + 1
      else if even f then f else f + 1)"

definition get_atm_strike :: "real option \<Rightarrow> real option" where
  "get_atm_strike underlying_price =
     (case underlying_price of
        None \<Rightarrow> None
      | Some u \<Rightarrow> if u \<le> 0 then None else Some (of_int (py_round (u / 50)) * 50))"

definition contract_rows :: "framework \<Rightarrow> int \<Rightarrow> int \<Rightarrow> real \<Rightarrow> string \<Rightarrow> row list" where
  "contract_rows fw date ex k ot =
     filter (\<lambda>r. Date r = date \<and> Expiry r = ex \<and> Strike r = k
                  \<and> Option_Type r = ot) (nifty_data fw)"

definition get_option_price :: "framework \<Rightarrow> int \<Rightarrow> int \<Rightarrow> real \<Rightarrow> string \<Rightarrow> real option" where
  "get_option_price fw date ex k ot =
     (case contract_rows fw date ex k ot of
        [] \<Rightarrow> None
      | r # _ \<Rightarrow> Some (Close r))"

definition close_time :: "int \<Rightarrow> int" where
  "close_time date = date * 86400 + 54000"

definition get_exit_price_at_close ::
  "framework \<Rightarrow> int \<Rightarrow> int \<Rightarrow> real \<Rightarrow> string \<Rightarrow> real option" where
  "get_exit_price_at_close fw date ex k ot =
     (let date_data = contract_rows fw date ex k ot in
      if length date_data = 0 then None
      else let close_data = filter (\<lambda>r. DateTime r \<le> close_time date) date_data in
        if length close_data > 0 then Some (Close (last close_data))
        else Some (Close (last date_data)))"

section \<open>The time-of-day gate of the entry pass\<close>

text \<open>\<^verbatim>\<open>current_time.split(':')[:2]\<close> unpacked into hour and minute, each read by
  \<^verbatim>\<open>int\<close>, which is the field \<open>int_of_str\<close> of the framework. Whatever raises (fewer
  than two fields, a field that \<^verbatim>\<open>int\<close> refuses) is swallowed by the bare
  \<^verbatim>\<open>except\<close>, and the observation is then not skipped.

  \<open>ascii_int\<close> reads an optional sign and ASCII decimal digits between blanks. It is what
  \<^verbatim>\<open>int\<close> does on such strings, and stands for \<^verbatim>\<open>int\<close> in the scenario below only;
  \<^verbatim>\<open>int\<close> accepts more (underscores, other white space, other decimal digits).\<close>

fun split_colon :: "string \<Rightarrow> string list" where
  "split_colon [] = [[]]"
| "split_colon (c # cs) =
     (if c = CHR '':'' then [] # split_colon cs
      else (case split_colon cs of
              [] \<Rightarrow> [[c]]
            | w # ws \<Rightarrow> (c # w) # ws))"

definition digit_val :: "char \<Rightarrow> nat option" where
  "digit_val c =
     (let n = of_char c :: nat in
      if 48 \<le> n \<and> n \<le> 57 then Some (n - 48) else None)"

fun digits_val :: "nat \<Rightarrow> string \<Rightarrow> nat option" where
  "digits_val acc [] = Some acc"
| "digits_val acc (c # cs) =
     (case digit_val c of
        None \<Rightarrow> None
      | Some d \<Rightarrow> digits_val (acc * 10 + d) cs)"

definition strip :: "string \<Rightarrow> string" where
  "strip s = rev (dropWhile (\<lambda>c. c = CHR '' '') (rev (dropWhile (\<lambda>c. c = CHR '' '') s)))"

definition ascii_int :: "string \<Rightarrow> int option" where
  "ascii_int s =
     (case strip s of
        [] \<Rightarrow> None
      | c # cs \<Rightarrow>
          if c = CHR ''-'' then (if cs = [] then None
                                else map_option (\<lambda>n. - int n) (digits_val 0 cs))
          else if c = CHR ''+'' then (if cs = [] then None
                                     else map_option int (digits_val 0 cs))
          else map_option int (digits_val 0 (c # cs)))"

definition before_warmup :: "framework \<Rightarrow> string \<Rightarrow> bool" where
  "before_warmup fw current_time =
     (case take 2 (split_colon current_time) of
        [h, m] \<Rightarrow>
          (case int_of_str fw h of
             None \<Rightarrow> False
           | Some hour \<Rightarrow>
               if hour < 9 then True
               else if hour = 9 then
                 (case int_of_str fw m of None \<Rightarrow> False | Some minute \<Rightarrow> minute < 30)
               else False)
      | _ \<Rightarrow> False)"

section \<open>The simulation engine\<close>

definition tt_get :: "(int \<rightharpoonup> nat) \<Rightarrow> int \<Rightarrow> nat" where
  "tt_get m d = (case m d of None \<Rightarrow> 0 | Some n \<Rightarrow> n)"

definition tt_incr :: "(int \<rightharpoonup> nat) \<Rightarrow> int \<Rightarrow> (int \<rightharpoonup> nat)" where
  "tt_incr m d = m(d \<mapsto> tt_get m d + 1)"

text \<open>Closing one position at \<open>xp\<close>: lines 122--141 and 215--234, which are the same.\<close>

definition close_trade :: "string \<Rightarrow> int \<Rightarrow> position \<Rightarrow> real \<Rightarrow> real \<Rightarrow> trade" where
  "close_trade strategy_name date pos xp cap_before =
     (let pnl_pct = (xp - pos_entry_price pos) / pos_entry_price pos;
          pnl = pos_investment pos * pnl_pct
      in \<lparr> strategy = strategy_name,
           entry_date = pos_entry_date pos,
           exit_date = date,
           entry_time = pos_entry_time pos,
           exit_time = ''15:00:00'',
           option_type = pos_option_type pos,
           strike = pos_strike pos,
           expiry = pos_expiry pos,
           entry_price = pos_entry_price pos,
           exit_price = xp,
           profit = pnl,
           profit_pct = pnl_pct * 100,
           capital_after = cap_before + pnl,
           underlying_at_entry = pos_underlying_at_entry pos \<rparr>)"

text \<open>The loop over \<^verbatim>\<open>enumerate(live_positions)\<close>. \<open>same_day\<close> selects the guard:
  \<^verbatim>\<open>date == pos['entry_date']\<close> for the pass after the entries,
  \<^verbatim>\<open>date >= pos['entry_date']\<close> for the pass before them. The list is not changed while
  it is walked; the indices of the closed positions are collected.\<close>

fun close_loop ::
  "framework \<Rightarrow> string \<Rightarrow> bool \<Rightarrow> int \<Rightarrow> (nat \<times> position) list \<Rightarrow> state \<times> nat list
     \<Rightarrow> state \<times> nat list" where
  "close_loop fw sn same_day date [] acc = acc"
| "close_loop fw sn same_day date ((i, pos) # rest) (st, to_close) =
     (if (if same_day then date = pos_entry_date pos else pos_entry_date pos \<le> date) then
        (case get_exit_price_at_close fw date (pos_expiry pos) (pos_strike pos)
                (pos_option_type pos) of
           None \<Rightarrow> close_loop fw sn same_day date rest (st, to_close)
         | Some xp \<Rightarrow>
             (let t = close_trade sn date pos xp (capital st) in
              close_loop fw sn same_day date rest
                (st\<lparr> capital := capital_after t,
                     trades := trades st @ [t],
                     trades_today := tt_incr (trades_today st) date \<rparr>,
                 to_close @ [i])))
      else close_loop fw sn same_day date rest (st, to_close))"

definition pop :: "'a list \<Rightarrow> nat \<Rightarrow> 'a list" where
  "pop xs i = take i xs @ drop (Suc i) xs"

definition pop_closed :: "position list \<Rightarrow> nat list \<Rightarrow> position list" where
  "pop_closed lp to_close =
     foldl (\<lambda>l i. if i < length l then pop l i else l) lp (rev (sort to_close))"

definition close_pass :: "framework \<Rightarrow> string \<Rightarrow> bool \<Rightarrow> int \<Rightarrow> state \<Rightarrow> state" where
  "close_pass fw sn same_day date st =
     (case close_loop fw sn same_day date (enumerate 0 (live_positions st)) (st, []) of
        (st', to_close) \<Rightarrow> st'\<lparr> live_positions := pop_closed (live_positions st') to_close \<rparr>)"

text \<open>One iteration of the loop over \<^verbatim>\<open>range(0, len(date_filtered), 5)\<close>, after its
  guard: \<open>None\<close> never arises, every path ends the iteration with a state.\<close>

definition entry_step ::
  "framework \<Rightarrow> entry_logic \<Rightarrow> int \<Rightarrow> row list \<Rightarrow> nat \<Rightarrow> state \<Rightarrow> state" where
  "entry_step fw el date date_filtered idx st =
     (let intraday_row = date_filtered ! idx;
          current_time = Time intraday_row
      in if before_warmup fw current_time then st
         else case UNDERLYING intraday_row of
           None \<Rightarrow> st
         | Some current_underlying \<Rightarrow>
             if current_underlying \<le> 0 then st
             else case get_nearest_expiry fw date of
               None \<Rightarrow> st
             | Some ex \<Rightarrow>
                 (case get_atm_strike (Some current_underlying) of
                    None \<Rightarrow> st
                  | Some k \<Rightarrow>
                      (let st1 = st\<lparr> entry_checks := entry_checks st + 1 \<rparr>;
                           current_data =
                             filter (\<lambda>r. DateTime r \<le> DateTime intraday_row) date_filtered
                       in case el date current_underlying current_data of
                            (Some ot, True) \<Rightarrow>
                              if ot = [] then st1
                              else (case get_option_price fw date ex k ot of
                                      None \<Rightarrow> st1
                                    | Some ep \<Rightarrow>
                                        if 0 < ep then
                                          st1\<lparr> live_positions := live_positions st1 @
                                                 [\<lparr> pos_entry_date = date,
                                                    pos_entry_time = current_time,
                                                    pos_expiry = ex,
                                                    pos_strike = k,
                                                    pos_option_type = ot,
                                                    pos_entry_price = ep,
                                                    pos_investment = capital st1 * (1 / 10),
                                                    pos_underlying_at_entry = current_underlying \<rparr>],
                                               trades_today := tt_incr (trades_today st1) date \<rparr>
                                        else st1)
                          | _ \<Rightarrow> st1)))"

text \<open>The entry loop with its guard and \<^verbatim>\<open>break\<close>. The literal 3 of line 155 is the
  argument \<open>cap\<close>, which \<open>backtest_strategy\<close> sets to 3.\<close>

fun entry_loop ::
  "nat \<Rightarrow> framework \<Rightarrow> entry_logic \<Rightarrow> int \<Rightarrow> row list \<Rightarrow> nat list \<Rightarrow> state \<Rightarrow> state" where
  "entry_loop cap fw el date date_filtered [] st = st"
| "entry_loop cap fw el date date_filtered (idx # rest) st =
     (if length (live_positions st) > 0 \<or> tt_get (trades_today st) date \<ge> cap then st
      else entry_loop cap fw el date date_filtered rest
             (entry_step fw el date date_filtered idx st))"

definition sample_indices :: "nat \<Rightarrow> nat list" where
  "sample_indices n = filter (\<lambda>i. i mod 5 = 0) [0..<n]"

definition start_date :: "int \<Rightarrow> state \<Rightarrow> state" where
  "start_date date st =
     (if date \<in> dom (trades_today st) then st
      else st\<lparr> trades_today := (trades_today st)(date \<mapsto> 0) \<rparr>)"

definition process_date ::
  "nat \<Rightarrow> framework \<Rightarrow> string \<Rightarrow> entry_logic \<Rightarrow> state \<Rightarrow> int \<Rightarrow> state" where
  "process_date cap fw sn el st date =
     (let date_filtered = filter (\<lambda>r. Date r = date) (nifty_data fw);
          s1 = close_pass fw sn False date (start_date date st);
          s2 = entry_loop cap fw el date date_filtered
                 (sample_indices (length date_filtered)) s1
      in close_pass fw sn True date s2)"

definition initial_state :: "framework \<Rightarrow> state" where
  "initial_state fw =
     \<lparr> capital = initial_capital fw, trades = [], trades_today = Map.empty,
       live_positions = [], entry_checks = 0 \<rparr>"

definition unique_dates :: "framework \<Rightarrow> int list" where
  "unique_dates fw = sort (remdups (map Date (nifty_data fw)))"

definition run_dates ::
  "nat \<Rightarrow> framework \<Rightarrow> string \<Rightarrow> entry_logic \<Rightarrow> int list \<Rightarrow> state" where
  "run_dates cap fw sn el ds = foldl (process_date cap fw sn el) (initial_state fw) ds"

definition backtest_strategy :: "framework \<Rightarrow> string \<Rightarrow> entry_logic \<Rightarrow> trade list" where
  "backtest_strategy fw strategy_name el =
     trades (run_dates 3 fw strategy_name el (unique_dates fw))"

section \<open>Performance metrics\<close>

text \<open>One row of \<^verbatim>\<open>equity_df\<close>. \<^verbatim>\<open>pct_change\<close> leaves the first row without a
  return.\<close>

record equity_row =
  eq_date :: int
  eq_capital :: real
  cumulative :: real
  running_max :: real
  drawdown :: real
  returns :: "real option"

record metrics =
  CAGR :: real
  Maximum_Drawdown :: real
  Sharpe_Ratio :: real
  Win_Rate :: real
  Total_Trades :: nat
  Winning_Trades :: nat
  Losing_Trades :: nat
  Avg_Profit_Per_Trade :: real
  Avg_Loss_Per_Trade :: real
  Total_Return :: real
  Final_Capital :: real
  Profit_Factor :: real
  Max_Consecutive_Wins :: nat
  Max_Consecutive_Losses :: nat
  Equity_Curve :: "equity_row list"

definition empty_metrics :: "framework \<Rightarrow> metrics" where
  "empty_metrics fw =
     \<lparr> CAGR = 0, Maximum_Drawdown = 0, Sharpe_Ratio = 0, Win_Rate = 0, Total_Trades = 0,
       Winning_Trades = 0, Losing_Trades = 0, Avg_Profit_Per_Trade = 0,
       Avg_Loss_Per_Trade = 0, Total_Return = 0, Final_Capital = initial_capital fw,
       Profit_Factor = 0, Max_Consecutive_Wins = 0, Max_Consecutive_Losses = 0,
       Equity_Curve = [] \<rparr>"

text \<open>\<^verbatim>\<open>sort_values('entry_date')\<close>, by the sorter of the framework.\<close>

definition sort_values_entry_date :: "framework \<Rightarrow> trade list \<Rightarrow> trade list" where
  "sort_values_entry_date fw ts = Rep_sorter (sort_values fw) ts"

text \<open>\<^verbatim>\<open>expanding().max()\<close>: the running maximum.\<close>

fun expanding_from :: "real \<Rightarrow> real list \<Rightarrow> real list" where
  "expanding_from m [] = []"
| "expanding_from m (x # xs) = max m x # expanding_from (max m x) xs"

definition expanding_max :: "real list \<Rightarrow> real list" where
  "expanding_max xs = (case xs of [] \<Rightarrow> [] | x # r \<Rightarrow> x # expanding_from x r)"

definition pct_change :: "real list \<Rightarrow> real option list" where
  "pct_change xs =
     (case xs of [] \<Rightarrow> [] | x # r \<Rightarrow> None # map2 (\<lambda>a b. Some ((b - a) / a)) xs r)"

definition equity_rows :: "trade list \<Rightarrow> equity_row list" where
  "equity_rows ts =
     (let caps = map capital_after ts;
          cums = map (\<lambda>c. c / hd caps) caps;
          rmax = expanding_max cums
      in map (\<lambda>(t, c, m, r).
                \<lparr> eq_date = exit_date t, eq_capital = capital_after t, cumulative = c,
                  running_max = m, drawdown = (c - m) / m, returns = r \<rparr>)
             (zip ts (zip cums (zip rmax (pct_change caps)))))"

definition mean :: "real list \<Rightarrow> real" where
  "mean xs = sum_list xs / real (length xs)"

text \<open>The sample standard deviation of pandas (\<open>ddof = 1\<close>), NaN below two values.\<close>

definition std :: "real list \<Rightarrow> real option" where
  "std xs =
     (if length xs < 2 then None
      else Some (sqrt (sum_list (map (\<lambda>x. (x - mean xs)\<^sup>2) xs) / real (length xs - 1))))"

definition sharpe_of :: "real list \<Rightarrow> real" where
  "sharpe_of rets =
     (case std rets of
        None \<Rightarrow> 0
      | Some sd \<Rightarrow> if length rets > 0 \<and> sd > 0 then sqrt 252 * mean rets / sd else 0)"

text \<open>The streak scan: (max wins, max losses, current wins, current losses).\<close>

fun streak_step :: "nat \<times> nat \<times> nat \<times> nat \<Rightarrow> int \<Rightarrow> nat \<times> nat \<times> nat \<times> nat" where
  "streak_step (mw, ml, cw, cl) result =
     (if result = 1 then (max mw (cw + 1), ml, cw + 1, 0)
      else (mw, max ml (cl + 1), 0, cl + 1))"

definition calculate_performance_metrics :: "framework \<Rightarrow> trade list \<Rightarrow> metrics" where
  "calculate_performance_metrics fw trades_df0 =
     (if length trades_df0 = 0 then empty_metrics fw
      else
        let trades_df = sort_values_entry_date fw trades_df0;
            total_days = Max (set (map exit_date trades_df)) - Min (set (map entry_date trades_df));
            final_value = capital_after (last trades_df);
            cagr = (if total_days = 0 then 0
                    else ((final_value / initial_capital fw) powr (365.25 / of_int total_days) - 1)
                         * 100);
            equity_df = equity_rows trades_df;
            mdd = Min (set (map drawdown equity_df)) * 100;
            rets = concat (map (\<lambda>e. case returns e of None \<Rightarrow> [] | Some r \<Rightarrow> [r]) equity_df);
            sharpe = sharpe_of rets;
            winning_trades = filter (\<lambda>t. profit t > 0) trades_df;
            losing_trades = filter (\<lambda>t. profit t \<le> 0) trades_df;
            win_rate = (if length trades_df > 0
                        then (real (length winning_trades) / real (length trades_df)) * 100 else 0);
            avg_profit = (if length winning_trades > 0 then mean (map profit winning_trades) else 0);
            avg_loss = (if length losing_trades > 0 then mean (map profit losing_trades) else 0);
            total_profit = (if length winning_trades > 0 then sum_list (map profit winning_trades)
                            else 0);
            total_loss = (if length losing_trades > 0 then \<bar>sum_list (map profit losing_trades)\<bar>
                          else 1);
            profit_factor = (if total_loss > 0 then total_profit / total_loss else 0);
            results = map (\<lambda>t. if profit t > 0 then 1 else - 1) trades_df;
            streaks = foldl streak_step (0, 0, 0, 0) results
        in \<lparr> CAGR = cagr, Maximum_Drawdown = mdd, Sharpe_Ratio = sharpe, Win_Rate = win_rate,
             Total_Trades = length trades_df, Winning_Trades = length winning_trades,
             Losing_Trades = length losing_trades, Avg_Profit_Per_Trade = avg_profit,
             Avg_Loss_Per_Trade = avg_loss,
             Total_Return = (capital_after (last trades_df) / initial_capital fw - 1) * 100,
             Final_Capital = capital_after (last trades_df), Profit_Factor = profit_factor,
             Max_Consecutive_Wins = fst streaks, Max_Consecutive_Losses = fst (snd streaks),
             Equity_Curve = equity_df \<rparr>)"

text \<open>The drawdown column as a function of the capital column.\<close>

definition drawdowns :: "real list \<Rightarrow> real list" where
  "drawdowns caps =
     (let cums = map (\<lambda>c. c / hd caps) caps
      in map2 (\<lambda>c m. (c - m) / m) cums (expanding_max cums))"

section \<open>The combined portfolio of the runner\<close>

datatype py_error = KeyError

text \<open>\<^verbatim>\<open>groupby('date')['capital'].last()\<close>: one row per date, dates ascending, the
  capital of the last row of that date. \<open>combine_portfolio\<close> is a function of the
  module, so the sort of pandas is its argument \<open>srt\<close>. Its second sort,
  \<^verbatim>\<open>sort_values('date')\<close>, meets no two rows of one date after the grouping, so every
  sort gives the same result there.\<close>

definition groupby_date_last :: "(int \<times> real) list \<Rightarrow> (int \<times> real) list" where
  "groupby_date_last eq =
     concat (map (\<lambda>d. case filter (\<lambda>p. fst p = d) eq of
                          [] \<Rightarrow> []
                        | p # ps \<Rightarrow> [(d, snd (last (p # ps)))])
                 (sort (remdups (map fst eq))))"

definition combine_portfolio ::
  "sorter \<Rightarrow> trade list list \<Rightarrow> py_error + (int \<times> real) list \<times> trade list" where
  "combine_portfolio srt all_trades =
     (if length all_trades = 0 then Inr ([], [])
      else
        let combined_trades = concat all_trades in
        if combined_trades = [] then Inl KeyError
        else
          let sorted_trades = Rep_sorter srt combined_trades;
              equity_curve = map (\<lambda>t. (exit_date t, capital_after t)) sorted_trades;
              equity_df = sort_key fst (groupby_date_last equity_curve)
          in Inr (equity_df, sorted_trades))"

section \<open>The shape of a ledger\<close>

text \<open>A position the entry pass can open on \<open>date\<close> with running capital \<open>c\<close>, the
  trade that closing it the same day gives, and the ledgers built from such trades over a
  list of dates.\<close>

definition opened :: "framework \<Rightarrow> int \<Rightarrow> real \<Rightarrow> position \<Rightarrow> bool" where
  "opened fw date c p \<longleftrightarrow>
     pos_entry_date p = date \<and> 0 < pos_entry_price p \<and>
     get_option_price fw date (pos_expiry p) (pos_strike p) (pos_option_type p)
       = Some (pos_entry_price p) \<and>
     pos_investment p = c * (1 / 10)"

definition closed_today :: "framework \<Rightarrow> string \<Rightarrow> int \<Rightarrow> real \<Rightarrow> trade \<Rightarrow> bool" where
  "closed_today fw sn date c t \<longleftrightarrow>
     (\<exists>p xp. opened fw date c p \<and>
        get_exit_price_at_close fw date (pos_expiry p) (pos_strike p) (pos_option_type p)
          = Some xp \<and>
        t = close_trade sn date p xp c)"

inductive ledger :: "framework \<Rightarrow> string \<Rightarrow> int list \<Rightarrow> trade list \<Rightarrow> real \<Rightarrow> bool"
  for fw :: framework and sn :: string where
  ledger_init: "ledger fw sn [] [] (initial_capital fw)"
| ledger_idle: "ledger fw sn ds ts c \<Longrightarrow> ledger fw sn (ds @ [d]) ts c"
| ledger_trade: "ledger fw sn ds ts c \<Longrightarrow> closed_today fw sn d c t \<Longrightarrow>
                 ledger fw sn (ds @ [d]) (ts @ [t]) (capital_after t)"

text \<open>The capital before trade \<open>i\<close> of a ledger: the initial capital before the first
  trade, the \<open>capital_after\<close> of the trade before it otherwise.\<close>

definition prev_capital :: "framework \<Rightarrow> trade list \<Rightarrow> nat \<Rightarrow> real" where
  "prev_capital fw ts i = (if i = 0 then initial_capital fw else capital_after (ts ! (i - 1)))"

section \<open>The exit price in the words of the specification\<close>

text \<open>The last row, in table order, of the rows that satisfy a predicate; the table is
  in time order when it comes from the loader, which sorts it by \<open>DateTime\<close>. The
  exit price is the close of the last row of the contract at or before the close time,
  else of the last row of the contract on that date, else nothing.\<close>

definition is_contract_row :: "int \<Rightarrow> int \<Rightarrow> real \<Rightarrow> string \<Rightarrow> row \<Rightarrow> bool" where
  "is_contract_row date ex k ot r \<longleftrightarrow>
     Date r = date \<and> Expiry r = ex \<and> Strike r = k \<and> Option_Type r = ot"

fun last_such :: "('a \<Rightarrow> bool) \<Rightarrow> 'a list \<Rightarrow> 'a option" where
  "last_such P [] = None"
| "last_such P (x # xs) =
     (case last_such P xs of
        Some y \<Rightarrow> Some y
      | None \<Rightarrow> if P x then Some x else None)"

definition exit_price_spec :: "framework \<Rightarrow> int \<Rightarrow> int \<Rightarrow> real \<Rightarrow> string \<Rightarrow> real option" where
  "exit_price_spec fw date ex k ot =
     (case last_such (\<lambda>r. is_contract_row date ex k ot r \<and> DateTime r \<le> close_time date)
             (nifty_data fw) of
        Some r \<Rightarrow> Some (Close r)
      | None \<Rightarrow> map_option Close (last_such (is_contract_row date ex k ot) (nifty_data fw)))"

section \<open>A scenario: one contract, entered at 100 and closed at 110\<close>

definition scenario_rows :: "row list" where
  "scenario_rows =
     [\<lparr> Date = 0, Time = ''10:00:00'', DateTime = 36000, UNDERLYING = Some 100, Expiry = 7,
        DTE = 7, Strike = 100, Option_Type = ''CE'', Close = 100 \<rparr>,
      \<lparr> Date = 0, Time = ''14:00:00'', DateTime = 50400, UNDERLYING = Some 100, Expiry = 7,
        DTE = 7, Strike = 100, Option_Type = ''CE'', Close = 110 \<rparr>]"

definition scenario_fw :: framework where
  "scenario_fw =
     \<lparr> nifty_data = scenario_rows, initial_capital = 1000000, int_of_str = ascii_int,
       sort_values = stable_sorter \<rparr>"

definition always_call :: entry_logic where
  "always_call d u rows = (Some ''CE'', True)"

definition scenario_trade :: trade where
  "scenario_trade =
     \<lparr> strategy = ''S'', entry_date = 0, exit_date = 0, entry_time = ''10:00:00'',
       exit_time = ''15:00:00'', option_type = ''CE'', strike = 100, expiry = 7,
       entry_price = 100, exit_price = 110, profit = 10000, profit_pct = 10,
       capital_after = 1010000, underlying_at_entry = 100 \<rparr>"

text \<open>The trades entered on a date plus the trades closed on it: what the per-date
  counter counts.\<close>

definition date_count :: "int \<Rightarrow> trade list \<Rightarrow> nat" where
  "date_count d ts =
     length (filter (\<lambda>t. entry_date t = d) ts) + length (filter (\<lambda>t. exit_date t = d) ts)"

text \<open>A state in which one position is live.\<close>

definition scenario_state :: state where
  "scenario_state =
     \<lparr> capital = 1000000, trades = [], trades_today = Map.empty,
       live_positions =
         [\<lparr> pos_entry_date = 0, pos_entry_time = ''10:00:00'', pos_expiry = 7, pos_strike = 100,
            pos_option_type = ''CE'', pos_entry_price = 100, pos_investment = 100000,
            pos_underlying_at_entry = 100 \<rparr>],
       entry_checks = 1 \<rparr>"

text \<open>The scenario trade made by two strategies on the same date, as the runner
  combines ledgers.\<close>

definition other_trade :: trade where
  "other_trade =
     scenario_trade\<lparr> strategy := ''T'', exit_price := 120, profit := 20000, profit_pct := 20,
                     capital_after := 1020000 \<rparr>"

definition two_strategy_ledger :: "trade list" where
  "two_strategy_ledger = [scenario_trade, other_trade]"

section \<open>The engine, one date at a time\<close>

lemma close_pass_no_live:
  "live_positions st = [] \<Longrightarrow> close_pass fw sn b date st = st"
  by (simp add: close_pass_def pop_closed_def)

lemma entry_step_frame:
  "capital (entry_step fw el date df idx st) = capital st"
  "trades (entry_step fw el date df idx st) = trades st"
  unfolding entry_step_def Let_def
  by (auto split: option.splits prod.splits bool.splits)

lemma entry_step_cases:
  "(live_positions (entry_step fw el date df idx st) = live_positions st \<and>
    trades_today (entry_step fw el date df idx st) = trades_today st)
   \<or> (\<exists>p. opened fw date (capital st) p \<and>
        live_positions (entry_step fw el date df idx st) = live_positions st @ [p] \<and>
        trades_today (entry_step fw el date df idx st) = tt_incr (trades_today st) date)"
  unfolding entry_step_def Let_def opened_def
  by (auto split: option.splits prod.splits bool.splits)

lemma exit_price_of_opened:
  "opened fw date c p \<Longrightarrow>
   \<exists>xp. get_exit_price_at_close fw date (pos_expiry p) (pos_strike p) (pos_option_type p) = Some xp"
  unfolding opened_def get_option_price_def get_exit_price_at_close_def Let_def
  by (auto split: list.splits)


lemma entry_loop_live:
  "live_positions st \<noteq> [] \<Longrightarrow> entry_loop cap fw el date df idxs st = st"
  by (cases idxs) simp_all

lemma tt_get_incr: "tt_get (tt_incr m d) d = tt_get m d + 1"
  by (simp add: tt_get_def tt_incr_def)

lemma dom_tt_incr: "dom (tt_incr m d) = insert d (dom m)"
  by (simp add: tt_incr_def)

lemma entry_loop_frame:
  "capital (entry_loop cap fw el date df idxs st) = capital st \<and>
   trades (entry_loop cap fw el date df idxs st) = trades st"
  by (induction idxs arbitrary: st) (simp_all add: entry_step_frame)

lemma entry_loop_cases:
  assumes "live_positions st = []"
  shows "(live_positions (entry_loop cap fw el date df idxs st) = [] \<and>
          trades_today (entry_loop cap fw el date df idxs st) = trades_today st)
       \<or> (\<exists>p. opened fw date (capital st) p \<and>
            live_positions (entry_loop cap fw el date df idxs st) = [p] \<and>
            trades_today (entry_loop cap fw el date df idxs st) = tt_incr (trades_today st) date)"
  using assms
proof (induction idxs arbitrary: st)
  case Nil
  then show ?case by simp
next
  case (Cons idx rest)
  let ?s = "entry_step fw el date df idx st"
  show ?case
  proof (cases "cap \<le> tt_get (trades_today st) date")
    case True
    with Cons.prems show ?thesis by simp
  next
    case False
    have run: "entry_loop cap fw el date df (idx # rest) st = entry_loop cap fw el date df rest ?s"
      using False Cons.prems by simp
    from entry_step_cases [of fw el date df idx st]
    show ?thesis
    proof
      assume a: "live_positions ?s = live_positions st \<and> trades_today ?s = trades_today st"
      then have "live_positions ?s = []" using Cons.prems by simp
      from Cons.IH [OF this] a show ?thesis
        unfolding run by (simp add: entry_step_frame)
    next
      assume "\<exists>p. opened fw date (capital st) p \<and>
        live_positions ?s = live_positions st @ [p] \<and>
        trades_today ?s = tt_incr (trades_today st) date"
      then obtain p where p: "opened fw date (capital st) p"
        "live_positions ?s = [p]" "trades_today ?s = tt_incr (trades_today st) date"
        using Cons.prems by auto
      then have "entry_loop cap fw el date df rest ?s = ?s"
        by (simp add: entry_loop_live)
      with p show ?thesis unfolding run by auto
    qed
  qed
qed

lemma close_pass_opened:
  assumes "live_positions st = [p]" and "pos_entry_date p = date"
    and "get_exit_price_at_close fw date (pos_expiry p) (pos_strike p) (pos_option_type p) = Some xp"
  shows "close_pass fw sn b date st =
           st\<lparr> capital := capital_after (close_trade sn date p xp (capital st)),
                trades := trades st @ [close_trade sn date p xp (capital st)],
                trades_today := tt_incr (trades_today st) date,
                live_positions := [] \<rparr>"
  using assms by (simp add: close_pass_def pop_closed_def pop_def Let_def)


lemma start_date_frame:
  "capital (start_date d st) = capital st"
  "trades (start_date d st) = trades st"
  "live_positions (start_date d st) = live_positions st"
  by (simp_all add: start_date_def)

lemma process_date_cases:
  assumes "live_positions st = []"
  shows "live_positions (process_date cap fw sn el st date) = [] \<and>
         ((trades (process_date cap fw sn el st date) = trades st \<and>
           capital (process_date cap fw sn el st date) = capital st \<and>
           trades_today (process_date cap fw sn el st date) = trades_today (start_date date st))
        \<or> (\<exists>t. closed_today fw sn date (capital st) t \<and>
             trades (process_date cap fw sn el st date) = trades st @ [t] \<and>
             capital (process_date cap fw sn el st date) = capital_after t \<and>
             trades_today (process_date cap fw sn el st date)
               = tt_incr (tt_incr (trades_today (start_date date st)) date) date))"
proof -
  let ?df = "filter (\<lambda>r. Date r = date) (nifty_data fw)"
  let ?s1 = "start_date date st"
  let ?s2 = "entry_loop cap fw el date ?df (sample_indices (length ?df)) ?s1"
  have l1: "live_positions ?s1 = []" using assms by (simp add: start_date_frame)
  have s1: "close_pass fw sn False date ?s1 = ?s1"
    using l1 by (rule close_pass_no_live)
  have pd: "process_date cap fw sn el st date = close_pass fw sn True date ?s2"
    by (simp add: process_date_def Let_def s1)
  have fr: "capital ?s2 = capital st" "trades ?s2 = trades st"
    by (simp_all add: entry_loop_frame start_date_frame)
  from entry_loop_cases [OF l1, of cap fw el date ?df "sample_indices (length ?df)"]
  show ?thesis
  proof
    assume "live_positions ?s2 = [] \<and> trades_today ?s2 = trades_today ?s1"
    then have "close_pass fw sn True date ?s2 = ?s2"
      by (simp add: close_pass_no_live)
    then show ?thesis using fr \<open>live_positions ?s2 = [] \<and> _\<close> by (simp add: pd)
  next
    assume "\<exists>p. opened fw date (capital ?s1) p \<and> live_positions ?s2 = [p] \<and>
                trades_today ?s2 = tt_incr (trades_today ?s1) date"
    then obtain p where p: "opened fw date (capital st) p" "live_positions ?s2 = [p]"
      "trades_today ?s2 = tt_incr (trades_today ?s1) date"
      by (auto simp: start_date_frame)
    from exit_price_of_opened [OF p(1)] obtain xp where
      xp: "get_exit_price_at_close fw date (pos_expiry p) (pos_strike p) (pos_option_type p) = Some xp"
      by blast
    have pe: "pos_entry_date p = date" using p(1) by (simp add: opened_def)
    have ct: "closed_today fw sn date (capital st) (close_trade sn date p xp (capital st))"
      unfolding closed_today_def using p(1) xp by blast
    show ?thesis
      unfolding pd close_pass_opened [OF p(2) pe xp]
      using ct fr p(3) by auto
  qed
qed

lemma run_dates_snoc:
  "run_dates cap fw sn el (ds @ [d]) = process_date cap fw sn el (run_dates cap fw sn el ds) d"
  by (simp add: run_dates_def)

lemma run_dates_ledger:
  "live_positions (run_dates cap fw sn el ds) = [] \<and>
   ledger fw sn ds (trades (run_dates cap fw sn el ds)) (capital (run_dates cap fw sn el ds))"
proof (induction ds rule: rev_induct)
  case Nil
  show ?case by (simp add: run_dates_def initial_state_def ledger_init)
next
  case (snoc d ds)
  then have l: "live_positions (run_dates cap fw sn el ds) = []" by simp
  from process_date_cases [OF l, of cap fw sn el d] snoc
  show ?case
    unfolding run_dates_snoc by (auto intro: ledger_idle ledger_trade)
qed



lemma scenario_ledger: "backtest_strategy scenario_fw ''S'' always_call = [scenario_trade]"
  by code_simp

section \<open>Properties of the ledger\<close>

lemma closed_today_dates:
  "closed_today fw sn d c t \<Longrightarrow> entry_date t = d \<and> exit_date t = d"
  by (auto simp: closed_today_def close_trade_def Let_def opened_def)

lemma closed_today_capital:
  "closed_today fw sn d c t \<Longrightarrow> capital_after t = c + profit t"
  by (auto simp: closed_today_def close_trade_def Let_def)

lemma ledger_same_day:
  "ledger fw sn ds ts c \<Longrightarrow> \<forall>t \<in> set ts. exit_date t = entry_date t"
  by (induction rule: ledger.induct) (auto dest: closed_today_dates)

lemma ledger_chain:
  "ledger fw sn ds ts c \<Longrightarrow>
     c = (if ts = [] then initial_capital fw else capital_after (last ts)) \<and>
     (\<forall>i < length ts. capital_after (ts ! i) = prev_capital fw ts i + profit (ts ! i))"
proof (induction rule: ledger.induct)
  case ledger_init
  show ?case by simp
next
  case (ledger_idle ds ts c d)
  then show ?case by simp
next
  case (ledger_trade ds ts c d t)
  have ct: "capital_after t = c + profit t"
    using ledger_trade.hyps(2) by (rule closed_today_capital)
  have "capital_after ((ts @ [t]) ! i) = prev_capital fw (ts @ [t]) i + profit ((ts @ [t]) ! i)"
    if "i < length (ts @ [t])" for i
  proof (cases "i < length ts")
    case True
    then show ?thesis using ledger_trade.IH
      by (auto simp: prev_capital_def nth_append)
  next
    case False
    then have i: "i = length ts" using that by simp
    show ?thesis
    proof (cases "ts = []")
      case True
      then show ?thesis using ledger_trade.IH ct i by (simp add: prev_capital_def)
    next
      case False
      then have "c = capital_after (ts ! (length ts - 1))"
        using ledger_trade.IH by (simp add: last_conv_nth)
      then show ?thesis using ct i False by (simp add: prev_capital_def nth_append)
    qed
  qed
  then show ?case by simp
qed

text \<open>C2. Capital conservation: in every ledger that \<open>backtest_strategy\<close> returns, the
  \<open>capital_after\<close> of trade \<open>i\<close> is the \<open>capital_after\<close> of trade \<open>i - 1\<close> (the initial
  capital for the first trade) plus the profit of trade \<open>i\<close>.\<close>

theorem capital_conservation:
  "i < length (backtest_strategy fw sn el) \<Longrightarrow>
   capital_after (backtest_strategy fw sn el ! i)
     = prev_capital fw (backtest_strategy fw sn el) i + profit (backtest_strategy fw sn el ! i)"
  unfolding backtest_strategy_def
  using run_dates_ledger [of 3 fw sn el "unique_dates fw"] ledger_chain by blast

theorem capital_conservation_witness:
  "0 < length (backtest_strategy scenario_fw ''S'' always_call) \<and>
   capital_after (backtest_strategy scenario_fw ''S'' always_call ! 0)
     = prev_capital scenario_fw (backtest_strategy scenario_fw ''S'' always_call) 0
       + profit (backtest_strategy scenario_fw ''S'' always_call ! 0)"
proof -
  have h: "0 < length (backtest_strategy scenario_fw ''S'' always_call)"
    by (simp add: scenario_ledger)
  from capital_conservation [OF h] h show ?thesis by simp
qed



section \<open>The exit price lookup\<close>

lemma last_such_filter:
  "last_such P xs = (if filter P xs = [] then None else Some (last (filter P xs)))"
  by (induction xs) auto

lemma last_such_None: "last_such P xs = None \<longleftrightarrow> (\<forall>x \<in> set xs. \<not> P x)"
  by (simp add: last_such_filter filter_empty_conv)

text \<open>C7. \<open>get_exit_price_at_close\<close> returns the close of the last row of the contract on
  that date at or before 15:00:00; when the contract has rows on that date but none at or
  before 15:00:00, the close of its last row of the day; and \<open>None\<close> exactly when the
  contract has no row on that date.\<close>

theorem exit_price_at_close_spec:
  "get_exit_price_at_close fw date ex k ot = exit_price_spec fw date ex k ot \<and>
   (get_exit_price_at_close fw date ex k ot = None
      \<longleftrightarrow> (\<forall>r \<in> set (nifty_data fw). \<not> is_contract_row date ex k ot r))"
proof -
  have cr: "contract_rows fw date ex k ot = filter (is_contract_row date ex k ot) (nifty_data fw)"
    by (simp add: contract_rows_def is_contract_row_def [abs_def])
  have ff: "filter (\<lambda>r. DateTime r \<le> close_time date) (contract_rows fw date ex k ot)
          = filter (\<lambda>r. is_contract_row date ex k ot r \<and> DateTime r \<le> close_time date)
              (nifty_data fw)"
    by (simp add: cr conj_commute)
  have eq: "get_exit_price_at_close fw date ex k ot = exit_price_spec fw date ex k ot"
    unfolding get_exit_price_at_close_def exit_price_spec_def Let_def ff last_such_filter
    by (auto simp: cr filter_empty_conv)
  have "get_exit_price_at_close fw date ex k ot = None
      \<longleftrightarrow> filter (is_contract_row date ex k ot) (nifty_data fw) = []"
    unfolding get_exit_price_at_close_def Let_def by (simp add: cr)
  then show ?thesis using eq by (simp add: filter_empty_conv)
qed

theorem exit_price_at_close_spec_witness:
  "get_exit_price_at_close scenario_fw 0 7 100 ''CE'' = exit_price_spec scenario_fw 0 7 100 ''CE'' \<and>
   exit_price_spec scenario_fw 0 7 100 ''CE'' = Some 110 \<and>
   is_contract_row 0 7 100 ''CE'' (hd (nifty_data scenario_fw)) \<and>
   get_exit_price_at_close scenario_fw 0 7 100 ''CE'' \<noteq> None \<and>
   get_exit_price_at_close scenario_fw 0 8 100 ''CE'' = None"
proof -
  have a: "exit_price_spec scenario_fw 0 7 100 ''CE'' = Some 110"
    by (simp add: exit_price_spec_def scenario_fw_def scenario_rows_def is_contract_row_def
        close_time_def)
  have b: "is_contract_row 0 7 100 ''CE'' (hd (nifty_data scenario_fw))"
    by (simp add: scenario_fw_def scenario_rows_def is_contract_row_def)
  have b': "\<exists>r \<in> set (nifty_data scenario_fw). is_contract_row 0 7 100 ''CE'' r"
    by (simp add: scenario_fw_def scenario_rows_def is_contract_row_def)
  have c: "\<forall>r \<in> set (nifty_data scenario_fw). \<not> is_contract_row 0 8 100 ''CE'' r"
    by (simp add: scenario_fw_def scenario_rows_def is_contract_row_def)
  from exit_price_at_close_spec [of scenario_fw 0 7 100 "''CE''"]
       exit_price_at_close_spec [of scenario_fw 0 8 100 "''CE''"] a b b' c
  show ?thesis by auto
qed

section \<open>Performance metrics\<close>

text \<open>C6. On the empty ledger the metrics are the zero-valued report, with the initial
  capital as final capital.\<close>

theorem empty_ledger_metrics:
  "calculate_performance_metrics fw [] =
     \<lparr> CAGR = 0, Maximum_Drawdown = 0, Sharpe_Ratio = 0, Win_Rate = 0, Total_Trades = 0,
       Winning_Trades = 0, Losing_Trades = 0, Avg_Profit_Per_Trade = 0,
       Avg_Loss_Per_Trade = 0, Total_Return = 0, Final_Capital = initial_capital fw,
       Profit_Factor = 0, Max_Consecutive_Wins = 0, Max_Consecutive_Losses = 0,
       Equity_Curve = [] \<rparr>"
  by (simp add: calculate_performance_metrics_def empty_metrics_def)

lemma sorter_mset: "mset (Rep_sorter srt ts) = mset ts"
  using Rep_sorter [of srt] by simp

lemma sorter_sorted: "sorted (map entry_date (Rep_sorter srt ts))"
  using Rep_sorter [of srt] by simp

lemma sorted_ledger_mset: "mset (sort_values_entry_date fw ts) = mset ts"
  by (simp add: sort_values_entry_date_def sorter_mset)

lemma sorted_ledger_set: "set (sort_values_entry_date fw ts) = set ts"
  using sorted_ledger_mset [of fw ts] by (rule mset_eq_setD)

lemma sorted_ledger_length: "length (sort_values_entry_date fw ts) = length ts"
  using sorted_ledger_mset [of fw ts] by (rule mset_eq_length)

lemma sorted_ledger_sum:
  "sum_list (map f (sort_values_entry_date fw ts)) = (sum_list (map f ts) :: real)"
proof -
  have "mset (map f (sort_values_entry_date fw ts)) = mset (map f ts)"
    by (simp add: sorted_ledger_mset)
  then show ?thesis by (metis sum_mset_sum_list)
qed

lemma scenario_sort: "sort_values_entry_date scenario_fw ts = sort_key entry_date ts"
  by (simp add: sort_values_entry_date_def scenario_fw_def stable_sorter.rep_eq)

lemma profit_factor_no_losses:
  assumes "ts \<noteq> []" and "\<forall>t \<in> set ts. 0 < profit t"
  shows "Profit_Factor (calculate_performance_metrics fw ts) = sum_list (map profit ts)"
proof -
  let ?s = "sort_values_entry_date fw ts"
  have w: "filter (\<lambda>t. 0 < profit t) ?s = ?s"
    using assms(2) by (simp add: sorted_ledger_set)
  have l: "filter (\<lambda>t. profit t \<le> 0) ?s = []"
    using assms(2) by (auto simp: sorted_ledger_set filter_empty_conv)
  have n: "?s \<noteq> []" using assms(1) sorted_ledger_length [of fw ts] by auto
  have "Profit_Factor (calculate_performance_metrics fw ts) = sum_list (map profit ?s)"
    using assms(1) n by (simp add: calculate_performance_metrics_def Let_def w l)
  then show ?thesis by (simp add: sorted_ledger_sum)
qed

text \<open>C5, as stated, fails: with no losing trade the loss denominator is 1, not 0, and
  the profit factor is the total profit. The scenario ledger has one winning trade and a
  profit factor that is not 0.\<close>

theorem profit_factor_counterexample:
  "0 < profit scenario_trade \<and>
   Profit_Factor (calculate_performance_metrics scenario_fw [scenario_trade]) \<noteq> 0"
  by (simp add: calculate_performance_metrics_def Let_def scenario_sort
      scenario_trade_def)

text \<open>C5, amended. On a non-empty ledger without losing trades the profit factor is the
  sum of the profits. The scenario (entry at 100, exit at 110, 100000 invested out of
  1000000) gives profit 10000, 10 percent, capital 1010000, a win rate of 100 and a
  profit factor of 10000.\<close>

theorem profit_factor_floor:
  "(ts \<noteq> [] \<and> (\<forall>t \<in> set ts. 0 < profit t)
      \<longrightarrow> Profit_Factor (calculate_performance_metrics fw ts) = sum_list (map profit ts)) \<and>
   backtest_strategy scenario_fw ''S'' always_call = [scenario_trade] \<and>
   entry_price scenario_trade = 100 \<and> exit_price scenario_trade = 110 \<and>
   profit scenario_trade = 10000 \<and> profit_pct scenario_trade = 10 \<and>
   capital_after scenario_trade = 1010000 \<and>
   Win_Rate (calculate_performance_metrics scenario_fw [scenario_trade]) = 100 \<and>
   Profit_Factor (calculate_performance_metrics scenario_fw [scenario_trade]) = 10000"
proof -
  have "Win_Rate (calculate_performance_metrics scenario_fw [scenario_trade]) = 100"
    by (simp add: calculate_performance_metrics_def Let_def scenario_sort
        scenario_trade_def)
  moreover have "Profit_Factor (calculate_performance_metrics scenario_fw [scenario_trade]) = 10000"
    by (simp add: calculate_performance_metrics_def Let_def scenario_sort
        scenario_trade_def)
  moreover have "entry_price scenario_trade = 100 \<and> exit_price scenario_trade = 110 \<and>
     profit scenario_trade = 10000 \<and> profit_pct scenario_trade = 10 \<and>
     capital_after scenario_trade = 1010000"
    by (simp add: scenario_trade_def)
  ultimately show ?thesis
    using profit_factor_no_losses [of ts fw] scenario_ledger by blast
qed

theorem profit_factor_floor_witness:
  "[scenario_trade] \<noteq> [] \<and> 0 < profit scenario_trade \<and>
   Profit_Factor (calculate_performance_metrics scenario_fw [scenario_trade])
     = sum_list (map profit [scenario_trade])"
proof -
  have p: "0 < profit scenario_trade" by (simp add: scenario_trade_def)
  then have h: "[scenario_trade] \<noteq> [] \<and> (\<forall>t \<in> set [scenario_trade]. 0 < profit t)"
    by simp
  from profit_factor_floor [of "[scenario_trade]" scenario_fw] h p show ?thesis by blast
qed

section \<open>The drawdown\<close>


lemma expanding_from_length: "length (expanding_from m xs) = length xs"
  by (induction xs arbitrary: m) simp_all

lemma expanding_max_length: "length (expanding_max xs) = length xs"
  by (simp add: expanding_max_def expanding_from_length split: list.splits)

lemma expanding_from_ge:
  "(c, M) \<in> set (zip xs (expanding_from m xs)) \<Longrightarrow> c \<le> M"
  by (induction xs arbitrary: m) auto

lemma expanding_max_ge:
  "(c, M) \<in> set (zip xs (expanding_max xs)) \<Longrightarrow> c \<le> M"
  by (auto simp: expanding_max_def split: list.splits dest: expanding_from_ge)

lemma expanding_from_sorted: "sorted (m # xs) \<Longrightarrow> expanding_from m xs = xs"
  by (induction xs arbitrary: m) (auto simp: max_def)

lemma expanding_max_sorted: "sorted xs \<Longrightarrow> expanding_max xs = xs"
  by (cases xs) (simp_all add: expanding_max_def expanding_from_sorted)

lemma pct_change_length: "length (pct_change xs) = length xs"
  by (cases xs) (simp_all add: pct_change_def)

lemma map4: 
  "length bs = length as \<Longrightarrow> length cs = length as \<Longrightarrow> length ds = length as \<Longrightarrow>
   map (\<lambda>(t, c, m, r). g c m) (zip as (zip bs (zip cs ds))) = map2 g bs cs"
proof (induction as arbitrary: bs cs ds)
  case Nil
  then show ?case by simp
next
  case (Cons a as)
  then obtain b bs' c cs' d ds' where "bs = b # bs'" "cs = c # cs'" "ds = d # ds'"
    by (metis length_Suc_conv)
  with Cons show ?case by simp
qed

lemma drawdown_equity_rows:
  "map drawdown (equity_rows ts) = drawdowns (map capital_after ts)"
proof -
  let ?caps = "map capital_after ts"
  let ?cums = "map (\<lambda>c. c / hd ?caps) ?caps"
  have "map drawdown (equity_rows ts)
      = map (\<lambda>(t, c, m, r). (c - m) / m)
          (zip ts (zip ?cums (zip (expanding_max ?cums) (pct_change ?caps))))"
    by (simp add: equity_rows_def Let_def case_prod_unfold)
  also have "\<dots> = map2 (\<lambda>c m. (c - m) / m) ?cums (expanding_max ?cums)"
    by (rule map4) (simp_all add: expanding_max_length pct_change_length)
  finally show ?thesis by (simp add: drawdowns_def Let_def)
qed

lemma drawdowns_length: "length (drawdowns caps) = length caps"
  by (simp add: drawdowns_def Let_def expanding_max_length)

lemma drawdowns_bounds:
  assumes "\<forall>c \<in> set caps. 0 < c" and "x \<in> set (drawdowns caps)"
  shows "- 1 < x \<and> x \<le> 0"
proof -
  let ?cums = "map (\<lambda>c. c / hd caps) caps"
  from assms(2) obtain c M where cm: "(c, M) \<in> set (zip ?cums (expanding_max ?cums))"
    and x: "x = (c - M) / M"
    by (auto simp: drawdowns_def Let_def)
  have ne: "caps \<noteq> []" using assms(2) by (auto simp: drawdowns_def)
  then have h: "0 < hd caps" using assms(1) by simp
  have "c \<in> set ?cums" using cm by (rule set_zip_leftD)
  then have c: "0 < c" using assms(1) h by auto
  have le: "c \<le> M" using cm by (rule expanding_max_ge)
  then have M: "0 < M" using c by simp
  have "x = c / M - 1" using x M by (simp add: diff_divide_distrib)
  moreover have "0 < c / M" using c M by simp
  moreover have "c / M \<le> 1" using le M by simp
  ultimately show ?thesis by simp
qed

lemma drawdowns_sorted:
  assumes "\<forall>c \<in> set caps. 0 < c" and "sorted caps" and "x \<in> set (drawdowns caps)"
  shows "x = 0"
proof -
  let ?cums = "map (\<lambda>c. c / hd caps) caps"
  have ne: "caps \<noteq> []" using assms(3) by (auto simp: drawdowns_def)
  then have h: "0 < hd caps" using assms(1) by simp
  have "sorted ?cums"
    using assms(2) h by (simp add: sorted_map sorted_wrt_mono_rel [of caps "(\<le>)"] divide_right_mono)
  then have e: "expanding_max ?cums = ?cums" by (rule expanding_max_sorted)
  from assms(3) obtain c where "c \<in> set ?cums" "x = (c - c) / c"
    unfolding drawdowns_def Let_def e by (auto simp: zip_same)
  then show ?thesis by simp
qed

section \<open>Capital stays positive; one trade per date\<close>

lemma exit_price_in_data:
  "get_exit_price_at_close fw d ex k ot = Some xp \<Longrightarrow> \<exists>r \<in> set (nifty_data fw). xp = Close r"
proof -
  assume a: "get_exit_price_at_close fw d ex k ot = Some xp"
  let ?m = "contract_rows fw d ex k ot"
  let ?c = "filter (\<lambda>r. DateTime r \<le> close_time d) ?m"
  have m: "set ?m \<subseteq> set (nifty_data fw)" by (auto simp: contract_rows_def)
  from a have ne: "?m \<noteq> []"
    by (auto simp: get_exit_price_at_close_def Let_def split: if_splits)
  show ?thesis
  proof (cases "?c = []")
    case True
    then have "xp = Close (last ?m)" using a ne
      by (simp add: get_exit_price_at_close_def Let_def)
    moreover have "last ?m \<in> set ?m" using ne by (rule last_in_set)
    ultimately show ?thesis using m by blast
  next
    case False
    then have "xp = Close (last ?c)" using a ne
      by (simp add: get_exit_price_at_close_def Let_def)
    moreover have "last ?c \<in> set ?c" using False by (rule last_in_set)
    moreover have "set ?c \<subseteq> set ?m" by auto
    ultimately show ?thesis using m by blast
  qed
qed

lemma closed_today_positive:
  assumes "closed_today fw sn d c t" and "0 < c" and "\<forall>r \<in> set (nifty_data fw). 0 \<le> Close r"
  shows "0 < capital_after t"
proof -
  from assms(1) obtain p xp where p: "opened fw d c p"
    and xp: "get_exit_price_at_close fw d (pos_expiry p) (pos_strike p) (pos_option_type p) = Some xp"
    and t: "t = close_trade sn d p xp c"
    by (auto simp: closed_today_def)
  from exit_price_in_data [OF xp] assms(3) have x0: "0 \<le> xp" by auto
  have ep: "0 < pos_entry_price p" and inv: "pos_investment p = c * (1 / 10)"
    using p by (simp_all add: opened_def)
  have "- 1 \<le> (xp - pos_entry_price p) / pos_entry_price p"
    using ep x0 by (simp add: field_simps)
  then have "- (c * (1 / 10)) \<le> c * (1 / 10) * ((xp - pos_entry_price p) / pos_entry_price p)"
    using assms(2) by (metis (no_types) mult_minus_right mult_left_mono mult.right_neutral
        less_eq_real_def zero_less_divide_iff zero_less_mult_iff zero_less_numeral zero_less_one)
  then have "0 < c + c * (1 / 10) * ((xp - pos_entry_price p) / pos_entry_price p)"
    using assms(2) by linarith
  then show ?thesis by (simp add: t close_trade_def Let_def inv)
qed

lemma ledger_positive:
  "ledger fw sn ds ts c \<Longrightarrow> 0 < initial_capital fw \<Longrightarrow>
   \<forall>r \<in> set (nifty_data fw). 0 \<le> Close r \<Longrightarrow>
   0 < c \<and> (\<forall>t \<in> set ts. 0 < capital_after t)"
  by (induction rule: ledger.induct) (auto dest: closed_today_positive)

lemma ledger_entry_dates:
  "ledger fw sn ds ts c \<Longrightarrow> entry_date ` set ts \<subseteq> set ds"
  by (induction rule: ledger.induct) (auto dest: closed_today_dates)

lemma ledger_strict:
  "ledger fw sn ds ts c \<Longrightarrow> sorted_wrt (<) ds \<Longrightarrow> sorted_wrt (<) (map entry_date ts)"
proof (induction rule: ledger.induct)
  case ledger_init
  show ?case by simp
next
  case (ledger_idle ds ts c d)
  then show ?case by (simp add: sorted_wrt_append)
next
  case (ledger_trade ds ts c d t)
  have "entry_date t = d" using ledger_trade.hyps(2) by (simp add: closed_today_dates)
  moreover have "\<forall>x \<in> set ts. entry_date x \<in> set ds"
    using ledger_entry_dates [OF ledger_trade.hyps(1)] by auto
  ultimately show ?case using ledger_trade.IH ledger_trade.prems
    by (auto simp: sorted_wrt_append)
qed

lemma unique_dates_strict: "sorted_wrt (<) (unique_dates fw)"
  by (simp add: unique_dates_def strict_sorted_iff)

lemma strict_count: "sorted_wrt (<) xs \<Longrightarrow> length (filter (\<lambda>x. x = (d::int)) xs) \<le> 1"
proof (induction xs)
  case Nil
  show ?case by simp
next
  case (Cons a xs)
  show ?case
  proof (cases "a = d")
    case True
    then have "\<forall>x \<in> set xs. x \<noteq> d" using Cons.prems by auto
    then have "filter (\<lambda>x. x = d) xs = []" by (simp add: filter_empty_conv)
    then show ?thesis by simp
  next
    case False
    then show ?thesis using Cons by simp
  qed
qed

lemma backtest_ledger:
  "ledger fw sn (unique_dates fw) (backtest_strategy fw sn el)
     (capital (run_dates 3 fw sn el (unique_dates fw)))"
  unfolding backtest_strategy_def using run_dates_ledger by blast

lemma backtest_strict: "sorted_wrt (<) (map entry_date (backtest_strategy fw sn el))"
  using ledger_strict [OF backtest_ledger unique_dates_strict] .

lemma backtest_entry_count:
  "length (filter (\<lambda>t. entry_date t = d) (backtest_strategy fw sn el)) \<le> 1"
proof -
  have "length (filter (\<lambda>t. entry_date t = d) (backtest_strategy fw sn el))
      = length (filter (\<lambda>x. x = d) (map entry_date (backtest_strategy fw sn el)))"
    by (simp add: filter_map comp_def)
  then show ?thesis using strict_count [OF backtest_strict] by simp
qed

lemma backtest_exit_count:
  "length (filter (\<lambda>t. exit_date t = d) (backtest_strategy fw sn el)) \<le> 1"
proof -
  have "filter (\<lambda>t. exit_date t = d) (backtest_strategy fw sn el)
      = filter (\<lambda>t. entry_date t = d) (backtest_strategy fw sn el)"
    using ledger_same_day [OF backtest_ledger, of fw sn el]
    by (intro filter_cong) auto
  then show ?thesis using backtest_entry_count by simp
qed


section \<open>The drawdown of a ledger of the engine\<close>

lemma zip4_map_fst:
  "length bs = length as \<Longrightarrow> length cs = length as \<Longrightarrow> length ds = length as \<Longrightarrow>
   map (\<lambda>(t, c, m, r). h t) (zip as (zip bs (zip cs ds))) = map h as"
proof (induction as arbitrary: bs cs ds)
  case Nil
  then show ?case by simp
next
  case (Cons a as)
  then obtain b bs' c cs' d ds' where "bs = b # bs'" "cs = c # cs'" "ds = d # ds'"
    by (metis length_Suc_conv)
  with Cons show ?case by simp
qed

lemma equity_rows_points:
  "map (\<lambda>e. (eq_date e, eq_capital e)) (equity_rows ts)
     = map (\<lambda>t. (exit_date t, capital_after t)) ts"
proof -
  let ?caps = "map capital_after ts"
  let ?cums = "map (\<lambda>c. c / hd ?caps) ?caps"
  have "map (\<lambda>e. (eq_date e, eq_capital e)) (equity_rows ts)
      = map (\<lambda>(t, c, m, r). (exit_date t, capital_after t))
          (zip ts (zip ?cums (zip (expanding_max ?cums) (pct_change ?caps))))"
    by (simp add: equity_rows_def Let_def case_prod_unfold)
  also have "\<dots> = map (\<lambda>t. (exit_date t, capital_after t)) ts"
    by (rule zip4_map_fst) (simp_all add: expanding_max_length pct_change_length)
  finally show ?thesis .
qed

lemma equity_rows_capital: "map eq_capital (equity_rows ts) = map capital_after ts"
proof -
  have "map eq_capital (equity_rows ts)
      = map snd (map (\<lambda>e. (eq_date e, eq_capital e)) (equity_rows ts))"
    by simp
  also have "\<dots> = map capital_after ts"
    unfolding equity_rows_points by simp
  finally show ?thesis .
qed

lemma mdd_positive_ledger:
  assumes "ts \<noteq> []" and "\<forall>t \<in> set ts. 0 < capital_after t"
  shows "- 100 \<le> Maximum_Drawdown (calculate_performance_metrics fw ts) \<and>
         Maximum_Drawdown (calculate_performance_metrics fw ts) \<le> 0 \<and>
         (sorted (map eq_capital (Equity_Curve (calculate_performance_metrics fw ts)))
            \<longrightarrow> Maximum_Drawdown (calculate_performance_metrics fw ts) = 0)"
proof -
  let ?s = "sort_values_entry_date fw ts"
  let ?caps = "map capital_after ?s"
  let ?D = "set (drawdowns ?caps)"
  have e: "drawdown ` set (equity_rows ?s) = ?D"
    using drawdown_equity_rows [of ?s] by (metis set_map)
  have mdd: "Maximum_Drawdown (calculate_performance_metrics fw ts) = Min ?D * 100"
    using assms(1) by (simp add: calculate_performance_metrics_def Let_def e)
  have curve: "map eq_capital (Equity_Curve (calculate_performance_metrics fw ts)) = ?caps"
    using assms(1) by (simp add: calculate_performance_metrics_def Let_def equity_rows_capital)
  have pos: "\<forall>c \<in> set ?caps. 0 < c"
    using assms(2) by (simp add: sorted_ledger_set)
  have "length (drawdowns ?caps) = length ts"
    by (simp add: drawdowns_length sorted_ledger_length)
  then have "drawdowns ?caps \<noteq> []" using assms(1) by auto
  then have "Min ?D \<in> ?D" by (intro Min_in) simp_all
  then have b: "- 1 < Min ?D \<and> Min ?D \<le> 0" and z: "sorted ?caps \<longrightarrow> Min ?D = 0"
    using drawdowns_bounds [OF pos] drawdowns_sorted [OF pos] by blast+
  from b z show ?thesis unfolding mdd curve by auto
qed

text \<open>C9. For a non-empty ledger that \<open>backtest_strategy\<close> returns from a positive
  initial capital on a table of non-negative closes, the maximum drawdown lies between
  -100 and 0 percent, and it is 0 when the capital column of the equity curve is
  non-decreasing.\<close>

theorem drawdown_bounded:
  assumes "0 < initial_capital fw" and "\<forall>r \<in> set (nifty_data fw). 0 \<le> Close r"
    and "backtest_strategy fw sn el \<noteq> []"
  shows "- 100 \<le> Maximum_Drawdown (calculate_performance_metrics fw (backtest_strategy fw sn el)) \<and>
         Maximum_Drawdown (calculate_performance_metrics fw (backtest_strategy fw sn el)) \<le> 0 \<and>
         (sorted (map eq_capital
                    (Equity_Curve (calculate_performance_metrics fw (backtest_strategy fw sn el))))
            \<longrightarrow> Maximum_Drawdown (calculate_performance_metrics fw (backtest_strategy fw sn el)) = 0)"
proof -
  have "\<forall>t \<in> set (backtest_strategy fw sn el). 0 < capital_after t"
    using ledger_positive [OF backtest_ledger assms(1) assms(2)] by blast
  with assms(3) show ?thesis by (rule mdd_positive_ledger)
qed

theorem drawdown_bounded_witness:
  "0 < initial_capital scenario_fw \<and> length (nifty_data scenario_fw) = 2 \<and>
   0 \<le> Close (nifty_data scenario_fw ! 0) \<and> 0 \<le> Close (nifty_data scenario_fw ! 1) \<and>
   backtest_strategy scenario_fw ''S'' always_call \<noteq> [] \<and>
   sorted (map eq_capital (Equity_Curve (calculate_performance_metrics scenario_fw
             (backtest_strategy scenario_fw ''S'' always_call)))) \<and>
   Maximum_Drawdown (calculate_performance_metrics scenario_fw
      (backtest_strategy scenario_fw ''S'' always_call)) = 0"
proof -
  have a: "0 < initial_capital scenario_fw" by (simp add: scenario_fw_def)
  have b: "\<forall>r \<in> set (nifty_data scenario_fw). 0 \<le> Close r"
    by (simp add: scenario_fw_def scenario_rows_def)
  have c: "backtest_strategy scenario_fw ''S'' always_call \<noteq> []"
    by (simp add: scenario_ledger)
  have d: "sorted (map eq_capital (Equity_Curve (calculate_performance_metrics scenario_fw
             (backtest_strategy scenario_fw ''S'' always_call))))"
    by (simp add: scenario_ledger calculate_performance_metrics_def Let_def
        scenario_sort equity_rows_capital)
  have e: "length (nifty_data scenario_fw) = 2 \<and>
     0 \<le> Close (nifty_data scenario_fw ! 0) \<and> 0 \<le> Close (nifty_data scenario_fw ! 1)"
    by (simp add: scenario_fw_def scenario_rows_def)
  from drawdown_bounded [OF a b c] a c d e show ?thesis by blast
qed

section \<open>At most one live position\<close>

lemma close_loop_live:
  "live_positions (fst (close_loop fw sn b date ps (st, tc))) = live_positions st"
  by (induction ps arbitrary: st tc) (auto split: option.splits simp: Let_def)

lemma pop_length: "length (pop xs i) \<le> length xs"
  by (simp add: pop_def)

lemma foldl_pop_length:
  "length (foldl (\<lambda>l i. if i < length l then pop l i else l) lp js) \<le> length lp"
proof (induction js arbitrary: lp)
  case Nil
  show ?case by simp
next
  case (Cons i js)
  let ?l = "if i < length lp then pop lp i else lp"
  have a: "length ?l \<le> length lp"
    by (simp add: pop_length)
  have "length (foldl (\<lambda>l i. if i < length l then pop l i else l) ?l js) \<le> length ?l"
    by (rule Cons.IH)
  with a show ?case by simp
qed

lemma close_pass_length:
  "length (live_positions (close_pass fw sn b date st)) \<le> length (live_positions st)"
proof -
  obtain st' tc where c: "close_loop fw sn b date (enumerate 0 (live_positions st)) (st, []) = (st', tc)"
    by (cases "close_loop fw sn b date (enumerate 0 (live_positions st)) (st, [])")
  have "live_positions st' = live_positions st"
    using close_loop_live [of fw sn b date "enumerate 0 (live_positions st)" st "[]"] c by simp
  then show ?thesis
    using foldl_pop_length [of "live_positions st" "rev (sort tc)"]
    by (simp add: close_pass_def c pop_closed_def)
qed

lemma run_live: "live_positions (run_dates cap fw sn el ds) = []"
  using run_dates_ledger by blast

text \<open>C1. The live set never holds two positions: it has at most one position after any
  list of dates, after the close pass of the next date, after any number of iterations of
  its entry loop, and after its same-day close pass; a close pass never makes the live
  set longer; and the entry loop on a state with a live position returns that state
  unchanged, without consulting the entry logic.\<close>

theorem single_position:
  "length (live_positions (run_dates 3 fw sn el ds)) \<le> 1 \<and>
   length (live_positions (close_pass fw sn False d (start_date d (run_dates 3 fw sn el ds)))) \<le> 1 \<and>
   length (live_positions (entry_loop 3 fw el d df idxs
             (close_pass fw sn False d (start_date d (run_dates 3 fw sn el ds))))) \<le> 1 \<and>
   length (live_positions (process_date 3 fw sn el (run_dates 3 fw sn el ds) d)) \<le> 1 \<and>
   length (live_positions (close_pass fw sn b d st)) \<le> length (live_positions st) \<and>
   (live_positions st \<noteq> [] \<longrightarrow> entry_loop 3 fw el d df idxs st = st)"
proof -
  let ?s0 = "run_dates 3 fw sn el ds"
  let ?s1 = "close_pass fw sn False d (start_date d ?s0)"
  have l0: "live_positions ?s0 = []" by (rule run_live)
  have l1: "live_positions ?s1 = []"
    using l0 by (simp add: close_pass_no_live start_date_frame)
  have "length (live_positions (entry_loop 3 fw el d df idxs ?s1)) \<le> 1"
    using entry_loop_cases [OF l1, of 3 fw el d df idxs] by auto
  moreover have "live_positions (process_date 3 fw sn el ?s0 d) = []"
    using process_date_cases [OF l0] by blast
  ultimately show ?thesis
    using l0 l1 close_pass_length entry_loop_live by simp
qed

theorem single_position_witness:
  "live_positions scenario_state \<noteq> [] \<and>
   entry_loop 3 scenario_fw always_call 0 scenario_rows [0] scenario_state = scenario_state \<and>
   length (live_positions
     (entry_loop 3 scenario_fw always_call 0 scenario_rows [0] scenario_state)) = 1"
proof -
  have h: "live_positions scenario_state \<noteq> []" by (simp add: scenario_state_def)
  have "entry_loop 3 scenario_fw always_call 0 scenario_rows [0] scenario_state = scenario_state"
    using single_position [of scenario_fw "''S''" always_call "[]" 0 scenario_rows "[0]" False
        scenario_state] h
    by blast
  then show ?thesis using h by (simp add: scenario_state_def)
qed

section \<open>The per-date counter and the cap\<close>

lemma date_count_none:
  "\<forall>t \<in> set ts. entry_date t \<noteq> d \<and> exit_date t \<noteq> d \<Longrightarrow> date_count d ts = 0"
  by (simp add: date_count_def filter_empty_conv)

lemma date_count_snoc:
  "date_count d (ts @ [t]) = date_count d ts + (if entry_date t = d then 1 else 0)
      + (if exit_date t = d then 1 else 0)"
  by (simp add: date_count_def)

lemma tt_get_upd: "tt_get (m(d \<mapsto> n)) d' = (if d' = d then n else tt_get m d')"
  by (simp add: tt_get_def)

lemma tt_get_incr_other: "d' \<noteq> d \<Longrightarrow> tt_get (tt_incr m d) d' = tt_get m d'"
  by (simp add: tt_get_def tt_incr_def)

lemma start_date_counter:
  "d \<notin> dom (trades_today st) \<Longrightarrow> trades_today (start_date d st) = (trades_today st)(d \<mapsto> 0)"
  by (simp add: start_date_def)

lemma run_counter:
  "distinct ds \<Longrightarrow>
   dom (trades_today (run_dates cap fw sn el ds)) = set ds \<and>
   (\<forall>d. tt_get (trades_today (run_dates cap fw sn el ds)) d
          = date_count d (trades (run_dates cap fw sn el ds)))"
proof (induction ds rule: rev_induct)
  case Nil
  show ?case by (simp add: run_dates_def initial_state_def tt_get_def date_count_def)
next
  case (snoc x ds)
  let ?st = "run_dates cap fw sn el ds"
  let ?st' = "process_date cap fw sn el ?st x"
  have dist: "distinct ds" and xn: "x \<notin> set ds" using snoc.prems by simp_all
  have dom: "dom (trades_today ?st) = set ds"
    and cnt: "\<And>d. tt_get (trades_today ?st) d = date_count d (trades ?st)"
    using snoc.IH [OF dist] by simp_all
  have led: "ledger fw sn ds (trades ?st) (capital ?st)" using run_dates_ledger by blast
  have old: "\<forall>t \<in> set (trades ?st). entry_date t \<noteq> x \<and> exit_date t \<noteq> x"
    using ledger_entry_dates [OF led] ledger_same_day [OF led] xn by auto
  have sd: "trades_today (start_date x ?st) = (trades_today ?st)(x \<mapsto> 0)"
    using xn dom by (simp add: start_date_counter)
  have l0: "live_positions ?st = []" by (rule run_live)
  from process_date_cases [OF l0, of cap fw sn el x]
  have "dom (trades_today ?st') = set (ds @ [x]) \<and>
        (\<forall>d. tt_get (trades_today ?st') d = date_count d (trades ?st'))"
  proof (elim conjE disjE exE)
    assume a: "trades ?st' = trades ?st" "trades_today ?st' = trades_today (start_date x ?st)"
    have "tt_get (trades_today ?st') d = date_count d (trades ?st')" for d
      using a cnt [of d] date_count_none [OF old] by (simp add: sd tt_get_upd)
    moreover have "dom (trades_today ?st') = set (ds @ [x])"
      using a dom by (simp add: sd)
    ultimately show ?thesis by blast
  next
    fix t
    assume a: "closed_today fw sn x (capital ?st) t" "trades ?st' = trades ?st @ [t]"
      "trades_today ?st' = tt_incr (tt_incr (trades_today (start_date x ?st)) x) x"
    have t: "entry_date t = x" "exit_date t = x"
      using closed_today_dates [OF a(1)] by simp_all
    have "tt_get (trades_today ?st') d = date_count d (trades ?st')" for d
    proof (cases "d = x")
      case True
      then show ?thesis
        using a(2,3) t date_count_none [OF old]
        by (simp add: sd tt_get_incr tt_get_upd date_count_snoc)
    next
      case False
      then show ?thesis
        using a(2,3) t cnt [of d]
        by (simp add: sd tt_get_incr_other tt_get_upd date_count_snoc)
    qed
    moreover have "dom (trades_today ?st') = set (ds @ [x])"
      using a(3) dom by (simp add: sd dom_tt_incr)
    ultimately show ?thesis by blast
  qed
  then show ?case by (simp add: run_dates_snoc)
qed

lemma unique_dates_distinct: "distinct (unique_dates fw)"
  by (simp add: unique_dates_def)

text \<open>C4. For every date, the trades of the ledger entered on that date plus the trades
  closed on that date are at most 3, and that number is the value of the per-date counter
  at the end of the run.\<close>

theorem per_date_cap:
  "date_count d (backtest_strategy fw sn el) \<le> 3 \<and>
   tt_get (trades_today (run_dates 3 fw sn el (unique_dates fw))) d
     = date_count d (backtest_strategy fw sn el)"
proof -
  have "date_count d (backtest_strategy fw sn el) \<le> 2"
    using backtest_entry_count [of d fw sn el] backtest_exit_count [of d fw sn el]
    by (simp add: date_count_def)
  then show ?thesis
    using run_counter [OF unique_dates_distinct, of 3 fw sn el]
    by (simp add: backtest_strategy_def)
qed

lemma entry_loop_cap:
  "live_positions st = [] \<Longrightarrow> tt_get (trades_today st) date = 0 \<Longrightarrow> 1 \<le> cap \<Longrightarrow>
   entry_loop cap fw el date df idxs st = entry_loop 1 fw el date df idxs st"
proof (induction idxs arbitrary: st)
  case Nil
  show ?case by simp
next
  case (Cons idx rest)
  let ?s = "entry_step fw el date df idx st"
  from entry_step_cases [of fw el date df idx st]
  show ?case
  proof
    assume a: "live_positions ?s = live_positions st \<and> trades_today ?s = trades_today st"
    then have "entry_loop cap fw el date df rest ?s = entry_loop 1 fw el date df rest ?s"
      using Cons by simp
    then show ?thesis using Cons.prems by simp
  next
    assume "\<exists>p. opened fw date (capital st) p \<and> live_positions ?s = live_positions st @ [p] \<and>
                trades_today ?s = tt_incr (trades_today st) date"
    then have "live_positions ?s \<noteq> []" by auto
    then have "entry_loop cap fw el date df rest ?s = ?s" "entry_loop 1 fw el date df rest ?s = ?s"
      by (simp_all add: entry_loop_live)
    then show ?thesis using Cons.prems by simp
  qed
qed

lemma process_date_cap:
  assumes "live_positions st = []" and "date \<notin> dom (trades_today st)" and "1 \<le> cap"
  shows "process_date cap fw sn el st date = process_date 1 fw sn el st date"
proof -
  let ?s1 = "start_date date st"
  have l1: "live_positions ?s1 = []" using assms(1) by (simp add: start_date_frame)
  have c1: "close_pass fw sn False date ?s1 = ?s1" using l1 by (rule close_pass_no_live)
  have t1: "tt_get (trades_today ?s1) date = 0"
    using assms(2) by (simp add: start_date_counter tt_get_upd)
  show ?thesis
    unfolding process_date_def Let_def c1
    using entry_loop_cap [OF l1 t1 assms(3)] by simp
qed

lemma run_dates_cap:
  "distinct ds \<Longrightarrow> 1 \<le> cap \<Longrightarrow> run_dates cap fw sn el ds = run_dates 1 fw sn el ds"
proof (induction ds rule: rev_induct)
  case Nil
  show ?case by (simp add: run_dates_def)
next
  case (snoc x ds)
  then have ih: "run_dates cap fw sn el ds = run_dates 1 fw sn el ds" by simp
  have "x \<notin> dom (trades_today (run_dates 1 fw sn el ds))"
    using run_counter [of ds 1 fw sn el] snoc.prems by simp
  then show ?case
    unfolding run_dates_snoc ih
    using snoc.prems(2) by (intro process_date_cap run_live)
qed

text \<open>C10. At most one trade of the ledger is entered on a date; the entry loop of a
  date leaves at most one live position; and the run is the same for every cap of at least
  1 in place of 3, so the cap never decides whether a position is opened.\<close>

theorem one_open_per_date:
  "length (filter (\<lambda>t. entry_date t = d) (backtest_strategy fw sn el)) \<le> 1 \<and>
   length (live_positions (entry_loop 3 fw el d df idxs
             (close_pass fw sn False d (start_date d (run_dates 3 fw sn el ds))))) \<le> 1 \<and>
   (1 \<le> cap \<longrightarrow> trades (run_dates cap fw sn el (unique_dates fw)) = backtest_strategy fw sn el)"
proof -
  let ?s1 = "close_pass fw sn False d (start_date d (run_dates 3 fw sn el ds))"
  have l1: "live_positions ?s1 = []"
    by (simp add: close_pass_no_live start_date_frame run_live)
  have a: "length (live_positions (entry_loop 3 fw el d df idxs ?s1)) \<le> 1"
    using entry_loop_cases [OF l1, of 3 fw el d df idxs] by auto
  have "run_dates cap fw sn el (unique_dates fw) = run_dates 3 fw sn el (unique_dates fw)"
    if "1 \<le> cap"
    using run_dates_cap [OF unique_dates_distinct that, of fw sn el]
      run_dates_cap [OF unique_dates_distinct, of 3 fw sn el] by simp
  then show ?thesis using a backtest_entry_count by (simp add: backtest_strategy_def)
qed

theorem one_open_per_date_witness:
  "(1::nat) \<le> 1 \<and>
   trades (run_dates 1 scenario_fw ''S'' always_call (unique_dates scenario_fw))
     = backtest_strategy scenario_fw ''S'' always_call"
  using one_open_per_date [where cap = 1 and fw = scenario_fw and sn = "''S''"
      and el = always_call]
  by simp

section \<open>The equity curve\<close>

lemma equity_rows_date: "map eq_date (equity_rows ts) = map exit_date ts"
proof -
  have "map eq_date (equity_rows ts)
      = map fst (map (\<lambda>e. (eq_date e, eq_capital e)) (equity_rows ts))"
    by simp
  also have "\<dots> = map exit_date ts"
    unfolding equity_rows_points by simp
  finally show ?thesis .
qed

text \<open>C8, as stated, fails: \<open>calculate_performance_metrics\<close> does not group by date.
  On a ledger with two trades closed on the same date its equity curve has two points of
  that date, so the dates are not strictly increasing.\<close>

theorem equity_curve_counterexample:
  "map eq_date (Equity_Curve (calculate_performance_metrics scenario_fw two_strategy_ledger))
     = [0, 0] \<and>
   \<not> sorted_wrt (<)
       (map eq_date (Equity_Curve (calculate_performance_metrics scenario_fw two_strategy_ledger)))"
  by (simp add: calculate_performance_metrics_def Let_def equity_rows_date
      scenario_sort two_strategy_ledger_def other_trade_def scenario_trade_def)

lemma zip4_map_snd:
  "length bs = length as \<Longrightarrow> length cs = length as \<Longrightarrow> length ds = length as \<Longrightarrow>
   map (\<lambda>(t, c, m, r). h c) (zip as (zip bs (zip cs ds))) = map h bs"
proof (induction as arbitrary: bs cs ds)
  case Nil
  then show ?case by simp
next
  case (Cons a as)
  then obtain b bs' c cs' d ds' where "bs = b # bs'" "cs = c # cs'" "ds = d # ds'"
    by (metis length_Suc_conv)
  with Cons show ?case by simp
qed

lemma equity_rows_cumulative:
  "map cumulative (equity_rows ts) = map (\<lambda>t. capital_after t / capital_after (hd ts)) ts"
proof -
  let ?caps = "map capital_after ts"
  let ?cums = "map (\<lambda>c. c / hd ?caps) ?caps"
  have "map cumulative (equity_rows ts)
      = map (\<lambda>(t, c, m, r). c)
          (zip ts (zip ?cums (zip (expanding_max ?cums) (pct_change ?caps))))"
    by (simp add: equity_rows_def Let_def case_prod_unfold)
  also have "\<dots> = map (\<lambda>c. c) ?cums"
    by (rule zip4_map_snd) (simp_all add: expanding_max_length pct_change_length)
  also have "\<dots> = map (\<lambda>t. capital_after t / capital_after (hd ts)) ts"
    by (cases ts) simp_all
  finally show ?thesis .
qed

lemma equity_rows_first:
  assumes "ts \<noteq> []" and "capital_after (hd ts) \<noteq> 0"
  shows "cumulative (hd (equity_rows ts)) = 1"
proof -
  have ne: "equity_rows ts \<noteq> []"
    using assms(1) equity_rows_cumulative [of ts] by (metis map_is_Nil_conv)
  have "cumulative (hd (equity_rows ts)) = hd (map cumulative (equity_rows ts))"
    using ne by (simp add: hd_map)
  also have "\<dots> = capital_after (hd ts) / capital_after (hd ts)"
    unfolding equity_rows_cumulative using assms(1) by (simp add: hd_map)
  finally show ?thesis using assms(2) by simp
qed

text \<open>A sorter leaves a ledger of strictly increasing entry dates as it is.\<close>

lemma sorter_id:
  assumes "sorted_wrt (<) (map entry_date ts)"
  shows "Rep_sorter srt ts = ts"
proof -
  let ?ys = "Rep_sorter srt ts"
  have m: "mset ?ys = mset ts" by (rule sorter_mset)
  have s: "sorted (map entry_date ts)" and d: "distinct (map entry_date ts)"
    using assms by (simp_all add: strict_sorted_iff)
  have "mset (map entry_date ?ys) = mset (map entry_date ts)"
    using m by simp
  then have "sort (map entry_date ts) = map entry_date ?ys"
    using sorter_sorted [of srt ts] by (intro properties_for_sort) simp_all
  then have k: "map entry_date ?ys = map entry_date ts"
    using s by (simp add: sort_key_id_if_sorted)
  have "set ?ys = set ts" using m by (rule mset_eq_setD)
  moreover have "inj_on entry_date (set ts)" using d by (simp add: distinct_map)
  ultimately have "inj_on entry_date (set ?ys \<union> set ts)" by simp
  then show ?thesis using k by (simp add: inj_on_map_eq_map)
qed

lemma backtest_sorted_id:
  "sort_values_entry_date fw' (backtest_strategy fw sn el) = backtest_strategy fw sn el"
  unfolding sort_values_entry_date_def using backtest_strict by (rule sorter_id)

lemma backtest_curve_points:
  "map (\<lambda>e. (eq_date e, eq_capital e))
       (Equity_Curve (calculate_performance_metrics fw (backtest_strategy fw sn el)))
     = map (\<lambda>t. (exit_date t, capital_after t)) (backtest_strategy fw sn el)"
proof (cases "backtest_strategy fw sn el = []")
  case True
  then show ?thesis by (simp add: calculate_performance_metrics_def empty_metrics_def)
next
  case False
  then have "Equity_Curve (calculate_performance_metrics fw (backtest_strategy fw sn el))
           = equity_rows (backtest_strategy fw sn el)"
    by (simp add: calculate_performance_metrics_def Let_def backtest_sorted_id)
  then show ?thesis by (simp only: equity_rows_points)
qed

lemma backtest_curve_strict:
  "sorted_wrt (<) (map eq_date (Equity_Curve (calculate_performance_metrics fw
                                  (backtest_strategy fw sn el))))"
proof -
  have m: "map exit_date (backtest_strategy fw sn el) = map entry_date (backtest_strategy fw sn el)"
    using ledger_same_day [OF backtest_ledger, of fw sn el] by simp
  have "map eq_date (Equity_Curve (calculate_performance_metrics fw (backtest_strategy fw sn el)))
      = map fst (map (\<lambda>e. (eq_date e, eq_capital e))
          (Equity_Curve (calculate_performance_metrics fw (backtest_strategy fw sn el))))"
    by simp
  also have "\<dots> = map exit_date (backtest_strategy fw sn el)"
    unfolding backtest_curve_points by simp
  finally show ?thesis
    unfolding m using backtest_strict [of fw sn el] by simp
qed

lemma concat_singletons:
  "\<forall>d \<in> set ds. \<exists>v. F d = [(d, v)] \<Longrightarrow> map fst (concat (map F ds)) = ds"
  by (induction ds) auto

lemma groupby_keys: "map fst (groupby_date_last eq) = sort (remdups (map fst eq))"
proof -
  have "\<exists>v. (case filter (\<lambda>p. fst p = d) eq of [] \<Rightarrow> [] | p # ps \<Rightarrow> [(d, snd (last (p # ps)))])
              = [(d, v)]"
    if "d \<in> set (sort (remdups (map fst eq)))" for d
  proof -
    from that have "filter (\<lambda>p. fst p = d) eq \<noteq> []"
      by (auto simp: filter_empty_conv)
    then show ?thesis by (cases "filter (\<lambda>p. fst p = d) eq") auto
  qed
  then show ?thesis
    unfolding groupby_date_last_def by (intro concat_singletons) blast
qed

lemma groupby_values:
  assumes "(d, c) \<in> set (groupby_date_last eq)"
  shows "filter (\<lambda>p. fst p = d) eq \<noteq> [] \<and> c = snd (last (filter (\<lambda>p. fst p = d) eq))"
proof -
  from assms obtain d' where
    m: "(d, c) \<in> set (case filter (\<lambda>p. fst p = d') eq of
                          [] \<Rightarrow> [] | p # ps \<Rightarrow> [(d', snd (last (p # ps)))])"
    by (auto simp: groupby_date_last_def)
  show ?thesis
  proof (cases "filter (\<lambda>p. fst p = d') eq")
    case Nil
    with m show ?thesis by simp
  next
    case (Cons p ps)
    with m have "d = d'" and "c = snd (last (p # ps))" by simp_all
    then show ?thesis using Cons by simp
  qed
qed

lemma groupby_sorted_id: "sort_key fst (groupby_date_last eq) = groupby_date_last eq"
  by (rule sort_key_id_if_sorted) (simp add: groupby_keys)

lemma groupby_trades:
  assumes "p \<in> set (groupby_date_last (map (\<lambda>t. (exit_date t, capital_after t)) ct))"
  shows "snd p = capital_after (last (filter (\<lambda>t. exit_date t = fst p) ct))"
proof -
  let ?g = "\<lambda>t. (exit_date t, capital_after t)"
  have f: "filter (\<lambda>q. fst q = fst p) (map ?g ct) = map ?g (filter (\<lambda>t. exit_date t = fst p) ct)"
    by (simp add: filter_map comp_def)
  from assms have "(fst p, snd p) \<in> set (groupby_date_last (map ?g ct))" by simp
  from groupby_values [OF this]
  have ne: "map ?g (filter (\<lambda>t. exit_date t = fst p) ct) \<noteq> []"
    and v: "snd p = snd (last (map ?g (filter (\<lambda>t. exit_date t = fst p) ct)))"
    unfolding f by simp_all
  from ne have "filter (\<lambda>t. exit_date t = fst p) ct \<noteq> []" by simp
  then show ?thesis using v by (simp add: last_map)
qed

lemma combine_portfolio_curve:
  assumes "combine_portfolio srt all_trades = Inr (eq, ct)"
  shows "mset ct = mset (concat all_trades) \<and> sorted (map entry_date ct) \<and>
         map fst eq = sort (remdups (map exit_date ct)) \<and>
         sorted_wrt (<) (map fst eq) \<and>
         (\<forall>p \<in> set eq. snd p = capital_after (last (filter (\<lambda>t. exit_date t = fst p) ct)))"
proof (cases "all_trades = []")
  case True
  then show ?thesis using assms by (auto simp: combine_portfolio_def)
next
  case False
  let ?g = "\<lambda>t. (exit_date t, capital_after t)"
  from assms False have eq: "eq = groupby_date_last (map ?g ct)"
    and ct: "ct = Rep_sorter srt (concat all_trades)"
    by (auto simp: combine_portfolio_def Let_def groupby_sorted_id split: if_splits)
  have k: "map fst eq = sort (remdups (map exit_date ct))"
    unfolding eq groupby_keys by (simp add: comp_def)
  have "sorted_wrt (<) (map fst eq)"
    unfolding k by (simp add: strict_sorted_iff)
  moreover have "\<forall>p \<in> set eq. snd p = capital_after (last (filter (\<lambda>t. exit_date t = fst p) ct))"
    unfolding eq using groupby_trades by blast
  moreover have "mset ct = mset (concat all_trades)" "sorted (map entry_date ct)"
    unfolding ct by (rule sorter_mset, rule sorter_sorted)
  ultimately show ?thesis using k by blast
qed

text \<open>C8, amended. The equity curve of \<open>calculate_performance_metrics\<close> has one point
  per trade, in the order in which \<^verbatim>\<open>sort_values('entry_date')\<close> arranges the ledger (the
  same trades, in ascending entry date, trades of one entry date in whatever order the
  sort leaves them), each point with that trade's exit date and capital; its cumulative
  column starts at 1 when the first capital is not 0; for a ledger that
  \<open>backtest_strategy\<close> returns the order is the ledger's own and the dates are strictly
  increasing. The series that \<open>combine_portfolio\<close> builds has exactly one point for each
  exit date of the combined ledger, in strictly increasing dates, each with the capital of
  the last trade of that date in the sorted combined ledger.\<close>

theorem equity_curve_points:
  "map (\<lambda>e. (eq_date e, eq_capital e)) (Equity_Curve (calculate_performance_metrics fw ts))
     = map (\<lambda>t. (exit_date t, capital_after t)) (sort_values_entry_date fw ts) \<and>
   mset (sort_values_entry_date fw ts) = mset ts \<and>
   sorted (map entry_date (sort_values_entry_date fw ts)) \<and>
   (ts \<noteq> [] \<and> capital_after (hd (sort_values_entry_date fw ts)) \<noteq> 0
      \<longrightarrow> cumulative (hd (Equity_Curve (calculate_performance_metrics fw ts))) = 1) \<and>
   map (\<lambda>e. (eq_date e, eq_capital e))
       (Equity_Curve (calculate_performance_metrics fw (backtest_strategy fw sn el)))
     = map (\<lambda>t. (exit_date t, capital_after t)) (backtest_strategy fw sn el) \<and>
   sorted_wrt (<) (map eq_date (Equity_Curve (calculate_performance_metrics fw
                                  (backtest_strategy fw sn el)))) \<and>
   (combine_portfolio srt all_trades = Inr (eq, ct)
      \<longrightarrow> mset ct = mset (concat all_trades) \<and> sorted (map entry_date ct) \<and>
          map fst eq = sort (remdups (map exit_date ct)) \<and>
          sorted_wrt (<) (map fst eq) \<and>
          (\<forall>p \<in> set eq. snd p
             = capital_after (last (filter (\<lambda>t. exit_date t = fst p) ct))))"
proof -
  let ?s = "sort_values_entry_date fw ts"
  have a: "map (\<lambda>e. (eq_date e, eq_capital e)) (Equity_Curve (calculate_performance_metrics fw ts))
         = map (\<lambda>t. (exit_date t, capital_after t)) ?s"
  proof (cases "ts = []")
    case True
    then have "?s = []" using sorted_ledger_length [of fw ts] by simp
    then show ?thesis using True
      by (simp add: calculate_performance_metrics_def empty_metrics_def)
  next
    case False
    then have "Equity_Curve (calculate_performance_metrics fw ts) = equity_rows ?s"
      by (simp add: calculate_performance_metrics_def Let_def)
    then show ?thesis by (simp only: equity_rows_points)
  qed
  have b: "cumulative (hd (Equity_Curve (calculate_performance_metrics fw ts))) = 1"
    if "ts \<noteq> []" and "capital_after (hd ?s) \<noteq> 0"
  proof -
    have ne: "?s \<noteq> []" using that(1) sorted_ledger_length [of fw ts] by auto
    have "Equity_Curve (calculate_performance_metrics fw ts) = equity_rows ?s"
      using that(1) by (simp add: calculate_performance_metrics_def Let_def)
    then show ?thesis using equity_rows_first [OF ne that(2)] by simp
  qed
  have c: "sorted (map entry_date ?s)"
    by (simp add: sort_values_entry_date_def sorter_sorted)
  from a b c sorted_ledger_mset backtest_curve_points backtest_curve_strict
    combine_portfolio_curve
  show ?thesis by blast
qed

theorem equity_curve_points_witness:
  "two_strategy_ledger \<noteq> [] \<and>
   capital_after (hd (sort_values_entry_date scenario_fw two_strategy_ledger)) \<noteq> 0 \<and>
   cumulative (hd (Equity_Curve (calculate_performance_metrics scenario_fw two_strategy_ledger)))
     = 1 \<and>
   map (\<lambda>e. (eq_date e, eq_capital e))
       (Equity_Curve (calculate_performance_metrics scenario_fw two_strategy_ledger))
     = [(0, 1010000), (0, 1020000)] \<and>
   combine_portfolio stable_sorter [[scenario_trade], [other_trade]]
     = Inr ([(0, 1020000)], two_strategy_ledger) \<and>
   map fst [(0 :: int, 1020000 :: real)] = sort (remdups (map exit_date two_strategy_ledger))"
proof -
  have h1: "two_strategy_ledger \<noteq> [] \<and>
            capital_after (hd (sort_values_entry_date scenario_fw two_strategy_ledger)) \<noteq> 0"
    by (simp add: scenario_sort two_strategy_ledger_def other_trade_def scenario_trade_def)
  have h2: "combine_portfolio stable_sorter [[scenario_trade], [other_trade]]
              = Inr ([(0, 1020000)], two_strategy_ledger)"
    by (simp add: combine_portfolio_def Let_def stable_sorter.rep_eq groupby_date_last_def
        two_strategy_ledger_def other_trade_def scenario_trade_def)
  have h3: "map (\<lambda>t. (exit_date t, capital_after t))
              (sort_values_entry_date scenario_fw two_strategy_ledger)
            = [(0, 1010000), (0, 1020000)]"
    by (simp add: scenario_sort two_strategy_ledger_def other_trade_def scenario_trade_def)
  from equity_curve_points [of scenario_fw two_strategy_ledger "''S''" always_call stable_sorter
      "[[scenario_trade], [other_trade]]" "[(0, 1020000)]" two_strategy_ledger] h1 h2 h3
  show ?thesis by simp
qed

end
